theory Spec2Isabelle
  imports Main "HOL-Library.Word"
begin

section \<open>JavaScript strings\<close>

text \<open>
  A JavaScript string is a sequence of UTF-16 code units: \<open>length\<close>, \<open>trim\<close>,
  \<open>startsWith\<close> and the regular expressions of the schemas (none has the \<open>u\<close> flag)
  all work on code units. String literals of the source are ASCII and are written
  \<open>js ''...''\<close>. The messages of issues and outcomes are always literals of the source
  (no submitted value ever flows into one), so they are kept as HOL strings.
\<close>

type_synonym jschar = "16 word"
type_synonym jsstring = "jschar list"

definition js :: "string \<Rightarrow> jsstring" where
  "js s = map of_char s"

text \<open>
  \<open>String.prototype.trim\<close> removes WhiteSpace and LineTerminator code units from both
  ends (ECMAScript: TAB, VT, FF, SP, NBSP, ZWNBSP, the category Zs, LF, CR, LS, PS).
\<close>

definition isLineTerminator :: "jschar \<Rightarrow> bool" where
  "isLineTerminator c \<longleftrightarrow> c = 0x0A \<or> c = 0x0D \<or> c = 0x2028 \<or> c = 0x2029"

definition isWhiteSpace :: "jschar \<Rightarrow> bool" where
  "isWhiteSpace c \<longleftrightarrow>
     c = 0x09 \<or> c = 0x0B \<or> c = 0x0C \<or> c = 0x20 \<or> c = 0xA0 \<or> c = 0xFEFF \<or>
     c = 0x1680 \<or> (0x2000 \<le> c \<and> c \<le> 0x200A) \<or> c = 0x202F \<or> c = 0x205F \<or> c = 0x3000 \<or>
     isLineTerminator c"

definition trim :: "jsstring \<Rightarrow> jsstring" where
  "trim s = rev (dropWhile isWhiteSpace (rev (dropWhile isWhiteSpace s)))"

definition startsWith :: "jsstring \<Rightarrow> jsstring \<Rightarrow> bool" where
  "startsWith s p \<longleftrightarrow> take (length p) s = p"

definition isLower :: "jschar \<Rightarrow> bool" where
  "isLower c \<longleftrightarrow> 0x61 \<le> c \<and> c \<le> 0x7A"

definition isUpper :: "jschar \<Rightarrow> bool" where
  "isUpper c \<longleftrightarrow> 0x41 \<le> c \<and> c \<le> 0x5A"

definition isDigit :: "jschar \<Rightarrow> bool" where
  "isDigit c \<longleftrightarrow> 0x30 \<le> c \<and> c \<le> 0x39"

text \<open>The character class \<open>[a-zA-Z0-9_-]\<close> of the username pattern.\<close>

definition isUserNameChar :: "jschar \<Rightarrow> bool" where
  "isUserNameChar c \<longleftrightarrow> isLower c \<or> isUpper c \<or> isDigit c \<or> c = 0x5F \<or> c = 0x2D"

text \<open>
  \<open>/^[a-zA-Z0-9_-]+$/\<close>: without the \<open>m\<close> flag \<open>^\<close> and \<open>$\<close> match only at the two
  ends of the input, so the whole string is one or more characters of the class.
\<close>

definition userNamePattern :: "jsstring \<Rightarrow> bool" where
  "userNamePattern s \<longleftrightarrow> s \<noteq> [] \<and> list_all isUserNameChar s"

text \<open>
  \<open>/^(?=.*[a-z])(?=.*[A-Z])(?=.*\d)/\<close>: three lookaheads at position 0. The dot does
  not match a line terminator, so each lookahead finds its character only before the
  first line terminator of the input.
\<close>

definition passwordPattern :: "jsstring \<Rightarrow> bool" where
  "passwordPattern s \<longleftrightarrow>
     (let line = takeWhile (\<lambda>c. \<not> isLineTerminator c) s
      in list_ex isLower line \<and> list_ex isUpper line \<and> list_ex isDigit line)"

section \<open>Collaborators\<close>

datatype exn = TypeError string | DbUnavailable | UniqueConstraint string

datatype role = Applicant | Employer

text \<open>A row of the \<open>users\<close> table; \<open>password\<close> is \<open>None\<close> for a NULL column.\<close>

record user =
  name :: jsstring
  email :: jsstring
  password :: "jsstring option"
  userName :: jsstring
  role :: role

text \<open>
  What the flows use and this repository does not define: the built-in
  \<open>String.prototype.toLowerCase\<close> (Unicode case mapping); the e-mail format test of the
  validation library and \<open>stringLength\<close>, the measure its length bounds apply to a
  string (UTF-16 code units or code points, by the version of the library; the two agree
  on a string without surrogate pairs); the two primitives of the argon2 package (each
  may throw); and
  \<open>interleaved\<close>: the writes other requests commit to the table while a registration
  is suspended between its duplicate query and its insert (the identity when the
  request runs alone).
\<close>

record env =
  toLowerCase :: "jsstring \<Rightarrow> jsstring"
  isEmail :: "jsstring \<Rightarrow> bool"
  stringLength :: "jsstring \<Rightarrow> nat"
  argon2_hash :: "jsstring \<Rightarrow> exn + jsstring"
  argon2_verify :: "jsstring \<Rightarrow> jsstring \<Rightarrow> exn + bool"
  interleaved :: "user list \<Rightarrow> user list"

section \<open>The validation library, as far as the schemas use it\<close>

text \<open>
  A raw submission is a JavaScript object: every key has a value, \<open>Undefined\<close> when the
  key is absent. \<open>JsOther t\<close> is any value that is neither a string nor undefined,
  with the type name \<open>t\<close> the library reports for it.
\<close>

datatype jsvalue = Undefined | JsString jsstring | JsOther string

type_synonym jsobject = "string \<Rightarrow> jsvalue"

text \<open>
  An issue carries the path of the field it is attached to, its message, and whether
  later checks still run after it (\<open>continue\<close>): a failed check of a string is
  continuable, a value of the wrong type is not.
\<close>

record issue =
  issue_path :: "string list"
  issue_message :: string
  issue_continue :: bool

definition check_issue :: "string \<Rightarrow> issue" where
  "check_issue m = \<lparr>issue_path = [], issue_message = m, issue_continue = True\<rparr>"

definition typeName :: "jsvalue \<Rightarrow> string" where
  "typeName v = (case v of Undefined \<Rightarrow> ''undefined'' | JsString _ \<Rightarrow> ''string'' | JsOther t \<Rightarrow> t)"

definition invalid_type :: "string \<Rightarrow> jsvalue \<Rightarrow> issue" where
  "invalid_type expected v =
     \<lparr>issue_path = [],
      issue_message = ''Invalid input: expected '' @ expected @ '', received '' @ typeName v,
      issue_continue = False\<rparr>"

text \<open>
  The chain of a string schema: transformations and constraints, run in the order they
  are declared, each on the value the earlier ones left. The bounds \<open>min\<close> and \<open>max\<close>
  compare the library's length of the string, \<open>stringLength\<close>. A failed constraint adds its
  issue and the chain goes on (none is declared with \<open>abort\<close>).
\<close>

datatype check =
    Trim
  | ToLowerCase
  | Min nat string
  | Max nat string
  | Regex "jsstring \<Rightarrow> bool" string
  | Email string

fun run_check :: "env \<Rightarrow> check \<Rightarrow> jsstring \<times> issue list \<Rightarrow> jsstring \<times> issue list" where
  "run_check E Trim (v, iss) = (trim v, iss)"
| "run_check E ToLowerCase (v, iss) = (toLowerCase E v, iss)"
| "run_check E (Min n m) (v, iss) = (v, if stringLength E v < n then iss @ [check_issue m] else iss)"
| "run_check E (Max n m) (v, iss) = (v, if n < stringLength E v then iss @ [check_issue m] else iss)"
| "run_check E (Regex p m) (v, iss) = (v, if p v then iss else iss @ [check_issue m])"
| "run_check E (Email m) (v, iss) = (v, if isEmail E v then iss else iss @ [check_issue m])"

definition run_checks :: "env \<Rightarrow> check list \<Rightarrow> jsstring \<Rightarrow> jsstring \<times> issue list" where
  "run_checks E cs v = foldl (\<lambda>acc c. run_check E c acc) (v, []) cs"

text \<open>\<open>z.string()\<close> followed by a chain: a value that is not a string is a type issue.\<close>

definition z_string :: "env \<Rightarrow> check list \<Rightarrow> jsvalue \<Rightarrow> jsstring option \<times> issue list" where
  "z_string E cs v =
     (case v of
        JsString s \<Rightarrow> (let (s', iss) = run_checks E cs s in (Some s', iss))
      | _ \<Rightarrow> (None, [invalid_type ''string'' v]))"

text \<open>The issues of a field, attached to the field's key.\<close>

definition at_key :: "string \<Rightarrow> issue list \<Rightarrow> issue list" where
  "at_key k iss = map (\<lambda>i. i\<lparr>issue_path := k # issue_path i\<rparr>) iss"

definition aborted :: "issue list \<Rightarrow> bool" where
  "aborted iss \<longleftrightarrow> list_ex (\<lambda>i. \<not> issue_continue i) iss"

section \<open>auth.schema.ts\<close>

definition name_checks :: "check list" where
  "name_checks =
     [Trim,
      Min 2 ''Name must be atleast 2 char long'',
      Max 255 ''Name must not excee 255 characters'']"

definition name_schema :: "env \<Rightarrow> jsvalue \<Rightarrow> jsstring option \<times> issue list" where
  "name_schema E = z_string E name_checks"

definition userName_checks :: "check list" where
  "userName_checks =
     [Trim,
      Min 3 ''Username must be atleast 3 characters long'',
      Max 255 ''Username must not exceed 255 characters'',
      Regex userNamePattern
        ''Username  can only contain letters , numbers , underscores , and hyphens'']"

definition userName_schema :: "env \<Rightarrow> jsvalue \<Rightarrow> jsstring option \<times> issue list" where
  "userName_schema E = z_string E userName_checks"

definition email_checks :: "check list" where
  "email_checks =
     [Trim,
      ToLowerCase,
      Email ''Please enter a valid email address'',
      Max 255 ''Email must not exceed 255 characters'']"

definition email_schema :: "env \<Rightarrow> jsvalue \<Rightarrow> jsstring option \<times> issue list" where
  "email_schema E = z_string E email_checks"

definition password_checks :: "check list" where
  "password_checks =
     [Min 8 ''Password must be atleast character long'',
      Regex passwordPattern
        ''Password must contain at leaset one lowercase letter , one uppercase letter and one number'']"

definition password_schema :: "env \<Rightarrow> jsvalue \<Rightarrow> jsstring option \<times> issue list" where
  "password_schema E = z_string E password_checks"

text \<open>
  \<open>z.enum(["applicant", "employer"], {error: ...}).default("applicant")\<close>: an absent
  value takes the default; any other value that is not one of the two strings fails
  with the schema's own message.
\<close>

definition role_issue :: issue where
  "role_issue =
     \<lparr>issue_path = [],
      issue_message = ''Role must be either an applicant or employer'',
      issue_continue = False\<rparr>"

definition role_schema :: "jsvalue \<Rightarrow> role option \<times> issue list" where
  "role_schema v =
     (case v of
        Undefined \<Rightarrow> (Some Applicant, [])
      | JsString s \<Rightarrow>
          (if s = js ''applicant'' then (Some Applicant, [])
           else if s = js ''employer'' then (Some Employer, [])
           else (None, [role_issue]))
      | JsOther _ \<Rightarrow> (None, [role_issue]))"

text \<open>\<open>LoginUserData\<close> and \<open>RegisterUserData\<close>: the outputs of the two schemas.\<close>

record LoginUserData =
  email :: jsstring
  password :: jsstring

record RegisterUserData = LoginUserData +
  name :: jsstring
  userName :: jsstring
  role :: role

text \<open>
  The fields of \<open>registerUserSchema\<close> parsed in the order of declaration; the issues of
  the object are those of its fields, in that order.
\<close>

definition register_fields ::
  "env \<Rightarrow> jsobject \<Rightarrow> (jsstring option \<times> jsstring option \<times> jsstring option \<times> jsstring option \<times> role option) \<times> issue list" where
  "register_fields E input =
     (let (n, i1) = name_schema E (input ''name'');
          (u, i2) = userName_schema E (input ''userName'');
          (e, i3) = email_schema E (input ''email'');
          (p, i4) = password_schema E (input ''password'');
          (r, i5) = role_schema (input ''role'')
      in ((n, u, e, p, r),
          at_key ''name'' i1 @ at_key ''userName'' i2 @ at_key ''email'' i3 @
          at_key ''password'' i4 @ at_key ''role'' i5))"

text \<open>\<open>registerUserSchema.safeParse\<close>: the data when there is no issue, the issues otherwise.\<close>

definition registerUserSchema :: "env \<Rightarrow> jsobject \<Rightarrow> issue list + RegisterUserData" where
  "registerUserSchema E input =
     (case register_fields E input of
        ((Some n, Some u, Some e, Some p, Some r), []) \<Rightarrow>
          Inr \<lparr>email = e, password = p, name = n, userName = u, role = r\<rparr>
      | (_, issues) \<Rightarrow> Inl issues)"

text \<open>
  \<open>registerUserWithConfirmSchema\<close>: \<open>extend\<close> adds the field \<open>confirmPassword\<close> after
  the others; \<open>refine\<close> adds a check of the whole object, which runs unless an issue
  that is not continuable has been raised, and attaches its issue to \<open>confirmPassword\<close>.
\<close>

definition confirm_issue :: issue where
  "confirm_issue =
     \<lparr>issue_path = [''confirmPassword''],
      issue_message = ''Passwords don't match'',
      issue_continue = True\<rparr>"

definition registerUserWithConfirm_issues :: "env \<Rightarrow> jsobject \<Rightarrow> issue list" where
  "registerUserWithConfirm_issues E input =
     (let ((n, u, e, p, r), iss) = register_fields E input;
          (c, i6) = z_string E [] (input ''confirmPassword'');
          issues = iss @ at_key ''confirmPassword'' i6
      in if aborted issues then issues
         else if p = c then issues
         else issues @ [confirm_issue])"

definition registerUserWithConfirmSchema ::
  "env \<Rightarrow> jsobject \<Rightarrow> issue list + (RegisterUserData \<times> jsstring)" where
  "registerUserWithConfirmSchema E input =
     (case (register_fields E input, z_string E [] (input ''confirmPassword''),
            registerUserWithConfirm_issues E input) of
        (((Some n, Some u, Some e, Some p, Some r), _), (Some c, _), []) \<Rightarrow>
          Inr (\<lparr>email = e, password = p, name = n, userName = u, role = r\<rparr>, c)
      | (_, _, issues) \<Rightarrow> Inl issues)"

definition login_email_checks :: "check list" where
  "login_email_checks =
     [Trim,
      ToLowerCase,
      Email ''Please enter a valid email address'',
      Max 255 ''Email must not exceed 255 characters'']"

definition login_password_checks :: "check list" where
  "login_password_checks = [Min 8 ''Password must be atlease 8 characters long'']"

definition loginUserSchema :: "env \<Rightarrow> jsobject \<Rightarrow> issue list + LoginUserData" where
  "loginUserSchema E input =
     (let (e, i1) = z_string E login_email_checks (input ''email'');
          (p, i2) = z_string E login_password_checks (input ''password'')
      in case ((e, p), at_key ''email'' i1 @ at_key ''password'' i2) of
           ((Some e', Some p'), []) \<Rightarrow> Inr \<lparr>email = e', password = p'\<rparr>
         | (_, issues) \<Rightarrow> Inl issues)"

section \<open>Storage and the record of calls\<close>

text \<open>
  The two \<open>where\<close> clauses of the file: \<open>eq(users.email, email)\<close> and
  \<open>or(eq(users.email, email), eq(users.userName, userName))\<close>.
\<close>

datatype query =
    EmailEq jsstring
  | EmailEqOrUserNameEq jsstring jsstring

fun matches :: "query \<Rightarrow> user \<Rightarrow> bool" where
  "matches (EmailEq e) u \<longleftrightarrow> user.email u = e"
| "matches (EmailEqOrUserNameEq e n) u \<longleftrightarrow> user.email u = e \<or> user.userName u = n"

text \<open>
  The state a flow runs in: the rows of the \<open>users\<close> table, in the order a query
  returns them; whether the database answers; and the calls made so far to the
  collaborators. \<open>console.error\<close> is recorded with its label and the value it is
  given; the \<open>console.log\<close> lines are left out.
\<close>

datatype logged = Exception exn | Text jsstring

datatype call =
    Select query
  | Hash jsstring
  | Insert user
  | Verify jsstring jsstring
  | ConsoleError string logged

record world =
  users :: "user list"
  connected :: bool
  calls :: "call list"

definition log :: "call \<Rightarrow> world \<Rightarrow> world" where
  "log c w = w\<lparr>calls := calls w @ [c]\<rparr>"

text \<open>
  Modelled from the spec: the database handle \<open>@/config/db\<close> is not among the sources.
  \<open>db.select().from(users).where(q)\<close> answers with "any record matching" the query, in
  the order of the table, or fails, as every call into a collaborator may.
\<close>

definition db_select :: "query \<Rightarrow> world \<Rightarrow> exn + user list" where
  "db_select q w = (if connected w then Inr (filter (matches q) (users w)) else Inl DbUnavailable)"

text \<open>
  Modelled from the spec: the table definition \<open>@/drizzle/schema\<close> is not among the
  sources. The stored record is "keyed uniquely by email and independently uniquely by
  handle", and an insert "fails with a uniqueness-violation signal distinguishable from
  other failures".
\<close>

definition db_insert :: "user \<Rightarrow> world \<Rightarrow> exn + world" where
  "db_insert r w =
     (if \<not> connected w then Inl DbUnavailable
      else if list_ex (\<lambda>u. user.email u = user.email r) (users w)
        then Inl (UniqueConstraint ''email'')
      else if list_ex (\<lambda>u. user.userName u = user.userName r) (users w)
        then Inl (UniqueConstraint ''userName'')
      else Inr (w\<lparr>users := users w @ [r]\<rparr>))"

section \<open>auth.action.tsx\<close>

datatype status = SUCCESS | ERROR

record outcome =
  status :: status
  message :: string

text \<open>What the \<open>catch\<close> block of either action does with the exception it caught.\<close>

definition unknown_error :: outcome where
  "unknown_error =
     \<lparr>status = ERROR, message = ''Unknown Error Occured ! Please Try Again Later''\<rparr>"

text \<open>The object the three failure branches of \<open>loginUserAction\<close> return.\<close>

definition invalid_credentials :: outcome where
  "invalid_credentials = \<lparr>status = ERROR, message = ''Invalid email or password''\<rparr>"

definition registration_catch :: "exn \<Rightarrow> world \<Rightarrow> outcome \<times> world" where
  "registration_catch error w =
     (unknown_error, log (ConsoleError ''Registration Error:'' (Exception error)) w)"

definition login_catch :: "exn \<Rightarrow> world \<Rightarrow> outcome \<times> world" where
  "login_catch error w =
     (unknown_error, log (ConsoleError ''Login Error:'' (Exception error)) w)"

text \<open>
  \<open>registrationAction\<close>. Every branch of the \<open>try\<close> block returns an outcome and the
  state it leaves; an exception of a collaborator goes to the \<open>catch\<close> block. Reading
  \<open>error.issues[0].message\<close> of an empty list would be a TypeError, caught as well.
\<close>

definition registrationAction :: "env \<Rightarrow> jsobject \<Rightarrow> world \<Rightarrow> outcome \<times> world" where
  "registrationAction E formData w =
     (case registerUserSchema E formData of
        Inl [] \<Rightarrow> registration_catch (TypeError ''Cannot read properties of undefined'') w
      | Inl (i # _) \<Rightarrow> (\<lparr>status = ERROR, message = issue_message i\<rparr>, w)
      | Inr validatedData \<Rightarrow>
          (let q = EmailEqOrUserNameEq (email validatedData) (userName validatedData);
               w1 = log (Select q) w in
           case db_select q w1 of
             Inl error \<Rightarrow> registration_catch error w1
           | Inr (u # _) \<Rightarrow>
               (if user.email u = email validatedData
                then (\<lparr>status = ERROR, message = ''Email Already Exists''\<rparr>, w1)
                else (\<lparr>status = ERROR, message = ''Username Already Exists''\<rparr>, w1))
           | Inr [] \<Rightarrow>
               (let w2 = log (Hash (password validatedData))
                           (w1\<lparr>users := interleaved E (users w1)\<rparr>) in
                case argon2_hash E (password validatedData) of
                  Inl error \<Rightarrow> registration_catch error w2
                | Inr hashPassword \<Rightarrow>
                    (let r = \<lparr>user.name = name validatedData,
                              user.email = email validatedData,
                              user.password = Some hashPassword,
                              user.userName = userName validatedData,
                              user.role = role validatedData\<rparr>;
                         w3 = log (Insert r) w2 in
                     case db_insert r w3 of
                       Inl error \<Rightarrow> registration_catch error w3
                     | Inr w4 \<Rightarrow>
                         (\<lparr>status = SUCCESS,
                           message = ''Registration Completed Successfully''\<rparr>, w4)))))"

text \<open>
  \<open>loginUserAction\<close>. The guard \<open>!user.password || !user.password.startsWith('$')\<close>
  is true for a NULL or empty stored value and for one that does not begin with \<open>$\<close>.
\<close>

definition guard_rejects :: "jsstring option \<Rightarrow> bool" where
  "guard_rejects stored \<longleftrightarrow>
     (case stored of None \<Rightarrow> True | Some s \<Rightarrow> s = [] \<or> \<not> startsWith s (js ''$''))"

definition loginUserAction :: "env \<Rightarrow> LoginUserData \<Rightarrow> world \<Rightarrow> outcome \<times> world" where
  "loginUserAction E formData w =
     (let w1 = log (Select (EmailEq (email formData))) w in
      case db_select (EmailEq (email formData)) w1 of
        Inl error \<Rightarrow> login_catch error w1
      | Inr [] \<Rightarrow> (\<lparr>status = ERROR, message = ''Invalid email or password''\<rparr>, w1)
      | Inr (u # _) \<Rightarrow>
          (if guard_rejects (user.password u)
           then (\<lparr>status = ERROR, message = ''Invalid email or password''\<rparr>,
                 log (ConsoleError ''Invalid password hash in DB for user:''
                        (Text (email formData))) w1)
           else
             (case user.password u of
                None \<Rightarrow> login_catch (TypeError ''hash must be a string'') w1
              | Some stored \<Rightarrow>
                  (let w2 = log (Verify stored (password formData)) w1 in
                   case argon2_verify E stored (password formData) of
                     Inl error \<Rightarrow> login_catch error w2
                   | Inr True \<Rightarrow>
                       (\<lparr>status = SUCCESS, message = ''Login Successful''\<rparr>, w2)
                   | Inr False \<Rightarrow>
                       (\<lparr>status = ERROR, message = ''Invalid email or password''\<rparr>, w2)))))"

section \<open>The two login forms\<close>

text \<open>
  \<open>handleFormSubmit\<close> of \<open>app/login/Login.tsx\<close> builds \<open>loginData\<close> from the state of
  the form and calls the action.
\<close>

definition handleFormSubmit :: "env \<Rightarrow> LoginUserData \<Rightarrow> world \<Rightarrow> outcome \<times> world" where
  "handleFormSubmit E formData w =
     (let loginData = \<lparr>email = trim (toLowerCase E (email formData)),
                       password = trim (password formData)\<rparr>
      in loginUserAction E loginData w)"

text \<open>
  The other login form of the repository validates the fields with \<open>loginUserSchema\<close>
  and, when they are valid, passes the output of the schema to \<open>onSubmit\<close>, which calls
  the action with it; otherwise the issues are shown and nothing is submitted.
\<close>

definition onSubmit :: "env \<Rightarrow> LoginUserData \<Rightarrow> world \<Rightarrow> outcome \<times> world" where
  "onSubmit E data w = loginUserAction E data w"

definition handleSubmit :: "env \<Rightarrow> jsobject \<Rightarrow> world \<Rightarrow> issue list + outcome \<times> world" where
  "handleSubmit E values w =
     (case loginUserSchema E values of
        Inl issues \<Rightarrow> Inl issues
      | Inr data \<Rightarrow> Inr (onSubmit E data w))"

section \<open>The first violation, as the specification orders it\<close>

text \<open>
  The specification's reading of a validation failure: "exactly one message, the
  first-encountered rule violation", where the "ordering is field-declaration order,
  then constraint-declaration order within a field", and constraints "observe
  post-transform values". \<open>first_failure\<close> walks one field's chain and stops at the first
  constraint that fails; \<open>first_violation\<close> takes the fields in the order of declaration.
  These follow the specification's words, to be compared with what the action returns.
\<close>

fun first_failure :: "env \<Rightarrow> check list \<Rightarrow> jsstring \<Rightarrow> string option" where
  "first_failure E [] v = None"
| "first_failure E (Trim # cs) v = first_failure E cs (trim v)"
| "first_failure E (ToLowerCase # cs) v = first_failure E cs (toLowerCase E v)"
| "first_failure E (Min n m # cs) v = (if stringLength E v < n then Some m else first_failure E cs v)"
| "first_failure E (Max n m # cs) v = (if n < stringLength E v then Some m else first_failure E cs v)"
| "first_failure E (Regex p m # cs) v = (if p v then first_failure E cs v else Some m)"
| "first_failure E (Email m # cs) v = (if isEmail E v then first_failure E cs v else Some m)"

definition field_violation :: "env \<Rightarrow> check list \<Rightarrow> jsvalue \<Rightarrow> string option" where
  "field_violation E cs v =
     (case v of
        JsString s \<Rightarrow> first_failure E cs s
      | _ \<Rightarrow> Some (''Invalid input: expected string, received '' @ typeName v))"

definition role_violation :: "jsvalue \<Rightarrow> string option" where
  "role_violation v =
     (if v = Undefined \<or> v = JsString (js ''applicant'') \<or> v = JsString (js ''employer'')
      then None
      else Some ''Role must be either an applicant or employer'')"

fun first_of :: "'a option list \<Rightarrow> 'a option" where
  "first_of [] = None"
| "first_of (Some x # _) = Some x"
| "first_of (None # xs) = first_of xs"

definition first_violation :: "env \<Rightarrow> jsobject \<Rightarrow> string option" where
  "first_violation E input =
     first_of
       [field_violation E name_checks (input ''name''),
        field_violation E userName_checks (input ''userName''),
        field_violation E email_checks (input ''email''),
        field_violation E password_checks (input ''password''),
        role_violation (input ''role'')]"

definition first_message :: "issue list \<Rightarrow> string option" where
  "first_message iss = (case iss of [] \<Rightarrow> None | i # _ \<Rightarrow> Some (issue_message i))"

section \<open>An environment for running the flows on concrete inputs\<close>

text \<open>
  Stand-ins for the collaborators: lower-casing of ASCII letters; an e-mail test that
  accepts the two addresses the examples use; the number of code units as the length
  (the examples are ASCII); and an argon2 double whose digest of \<open>p\<close>
  is \<open>$argon2id$\<close> followed by \<open>p\<close>, and whose \<open>verify\<close> throws on a stored value
  that is not of that form, as the parser of the real package does on a malformed one.
\<close>

definition example_env :: env where
  "example_env =
     \<lparr>toLowerCase = map (\<lambda>c. if isUpper c then c + 0x20 else c),
      isEmail = (\<lambda>s. s = js ''a@b.com'' \<or> s = js ''c@d.org''),
      stringLength = length,
      argon2_hash = (\<lambda>p. Inr (js ''$argon2id$'' @ p)),
      argon2_verify = (\<lambda>d p. if take 10 d = js ''$argon2id$'' then Inr (drop 10 d = p)
                               else Inl (TypeError ''malformed digest'')),
      interleaved = (\<lambda>rows. rows)\<rparr>"

definition example_user :: user where
  "example_user =
     \<lparr>user.name = js ''Jo'', user.email = js ''a@b.com'',
      user.password = Some (js ''$argon2id$Abcdefg1''),
      user.userName = js ''jo_1'', user.role = Applicant\<rparr>"

definition example_world :: "user list \<Rightarrow> world" where
  "example_world rows = \<lparr>users = rows, connected = True, calls = []\<rparr>"

definition example_form :: "string \<Rightarrow> string \<Rightarrow> string \<Rightarrow> string \<Rightarrow> jsobject" where
  "example_form n u e p =
     (\<lambda>k. if k = ''name'' then JsString (js n)
          else if k = ''userName'' then JsString (js u)
          else if k = ''email'' then JsString (js e)
          else if k = ''password'' then JsString (js p)
          else Undefined)"

text \<open>
  The same collaborators when another registration of \<open>example_user\<close> is committed
  between the duplicate query and the insert.
\<close>

definition racing_env :: env where
  "racing_env = example_env\<lparr>interleaved := (\<lambda>rows. rows @ [example_user])\<rparr>"

text \<open>A registration form with its confirmation field filled in.\<close>

definition example_confirm :: "string \<Rightarrow> jsobject \<Rightarrow> jsobject" where
  "example_confirm c form = (\<lambda>k. if k = ''confirmPassword'' then JsString (js c) else form k)"

text \<open>A login form.\<close>

definition example_login :: "string \<Rightarrow> string \<Rightarrow> jsobject" where
  "example_login e p =
     (\<lambda>k. if k = ''email'' then JsString (js e)
          else if k = ''password'' then JsString (js p)
          else Undefined)"

section \<open>Issues and the first violation\<close>

lemma run_check_acc:
  "run_check E c (v, acc) = (fst (run_check E c (v, [])), acc @ snd (run_check E c (v, [])))"
  by (cases c) auto

lemma foldl_run_check_acc:
  "foldl (\<lambda>a c. run_check E c a) (v, acc) cs =
     (fst (foldl (\<lambda>a c. run_check E c a) (v, []) cs),
      acc @ snd (foldl (\<lambda>a c. run_check E c a) (v, []) cs))"
proof (induction cs arbitrary: v acc)
  case Nil
  show ?case by simp
next
  case (Cons c cs)
  obtain v1 i1 where r: "run_check E c (v, []) = (v1, i1)" by (cases "run_check E c (v, [])")
  have a: "run_check E c (v, acc) = (v1, acc @ i1)"
    using run_check_acc [of E c v acc] r by simp
  show ?case
    using Cons.IH [of v1 "acc @ i1"] Cons.IH [of v1 i1] by (simp add: a r)
qed

lemma run_checks_Cons:
  "run_checks E (c # cs) v =
     (fst (run_checks E cs (fst (run_check E c (v, [])))),
      snd (run_check E c (v, [])) @ snd (run_checks E cs (fst (run_check E c (v, [])))))"
proof -
  obtain v1 i1 where r: "run_check E c (v, []) = (v1, i1)" by (cases "run_check E c (v, [])")
  show ?thesis
    unfolding run_checks_def using foldl_run_check_acc [of E v1 i1 cs] by (simp add: r)
qed

lemma run_checks_Nil: "run_checks E [] v = (v, [])"
  by (simp add: run_checks_def)

lemma first_message_append:
  "first_message (xs @ ys) = (case first_message xs of Some m \<Rightarrow> Some m | None \<Rightarrow> first_message ys)"
  by (cases xs) (simp_all add: first_message_def)

lemma first_message_run_checks:
  "first_message (snd (run_checks E cs v)) = first_failure E cs v"
proof (induction E cs v rule: first_failure.induct)
  case (1 E v)
  show ?case by (simp add: run_checks_Nil first_message_def)
qed (simp_all add: run_checks_Cons first_message_append, simp_all add: first_message_def check_issue_def)

lemma first_message_at_key: "first_message (at_key k iss) = first_message iss"
  by (cases iss) (simp_all add: first_message_def at_key_def)

lemma first_message_z_string:
  "first_message (snd (z_string E cs v)) = field_violation E cs v"
proof (cases v)
  case (JsString s)
  then show ?thesis
    by (simp add: z_string_def field_violation_def split_beta first_message_run_checks)
qed (simp_all add: z_string_def field_violation_def first_message_def invalid_type_def)

lemma first_message_role: "first_message (snd (role_schema v)) = role_violation v"
  by (cases v) (simp_all add: role_schema_def role_violation_def first_message_def role_issue_def)

lemma z_string_value: "fst (z_string E cs v) = None \<longleftrightarrow> (\<forall>s. v \<noteq> JsString s)"
  by (cases v) (simp_all add: z_string_def split_beta)

lemma first_of_Cons:
  "first_of (x # xs) = (case x of Some m \<Rightarrow> Some m | None \<Rightarrow> first_of xs)"
  by (cases x) simp_all

lemma first_message_Nil: "first_message [] = None"
  by (simp add: first_message_def)

lemma first_message_register_fields:
  "first_message (snd (register_fields E input)) = first_violation E input"
  by (simp add: register_fields_def split_beta first_violation_def first_message_append
        first_message_at_key name_schema_def userName_schema_def email_schema_def
        password_schema_def first_message_z_string first_message_role first_of_Cons
        first_message_Nil cong: option.case_cong split: option.splits)

lemma z_string_None: "fst (z_string E cs v) = None \<Longrightarrow> snd (z_string E cs v) \<noteq> []"
  by (cases v) (simp_all add: z_string_def split_beta)

lemma role_schema_None: "fst (role_schema v) = None \<Longrightarrow> snd (role_schema v) \<noteq> []"
  by (cases v) (simp_all add: role_schema_def split: if_splits)

lemma at_key_Nil: "at_key k iss = [] \<longleftrightarrow> iss = []"
  by (simp add: at_key_def)

lemma registerUserSchema_Inl:
  assumes "registerUserSchema E input = Inl issues"
  shows "issues = snd (register_fields E input) \<and> issues \<noteq> []"
proof -
  obtain n u e p r iss where f: "register_fields E input = ((n, u, e, p, r), iss)"
    by (metis prod_cases5 surj_pair)
  have iss: "issues = iss"
    using assms f by (auto simp: registerUserSchema_def split: option.splits list.splits)
  have "iss \<noteq> []"
  proof
    assume e: "iss = []"
    with assms f have "n = None \<or> u = None \<or> e = None \<or> p = None \<or> r = None"
      by (auto simp: registerUserSchema_def split: option.splits list.splits)
    then show False
      using f e z_string_None [of E name_checks "input ''name''"]
        z_string_None [of E userName_checks "input ''userName''"]
        z_string_None [of E email_checks "input ''email''"]
        z_string_None [of E password_checks "input ''password''"]
        role_schema_None [of "input ''role''"]
      by (auto simp: register_fields_def split_beta name_schema_def userName_schema_def
            email_schema_def password_schema_def at_key_Nil)
  qed
  with iss f show ?thesis by simp
qed

lemma registerUserSchema_Inr:
  assumes "registerUserSchema E input = Inr d"
  shows "snd (register_fields E input) = [] \<and>
         fst (register_fields E input) =
           (Some (name d), Some (userName d), Some (email d), Some (password d), Some (role d))"
proof -
  obtain n u e p r iss where f: "register_fields E input = ((n, u, e, p, r), iss)"
    by (metis prod_cases5 surj_pair)
  show ?thesis
    using assms f by (auto simp: registerUserSchema_def split: option.splits list.splits)
qed

lemma registration_invalid:
  assumes "registerUserSchema E formData = Inl issues"
  shows "\<exists>m. first_violation E formData = Some m \<and>
             registrationAction E formData w = (\<lparr>status = ERROR, message = m\<rparr>, w)"
proof -
  have s: "issues = snd (register_fields E formData)" and ne: "issues \<noteq> []"
    using registerUserSchema_Inl [OF assms] by blast+
  from ne obtain i rest where i: "issues = i # rest"
    by (cases issues) simp_all
  have "snd (register_fields E formData) = i # rest"
    using s i by simp
  then have "first_violation E formData = Some (issue_message i)"
    using first_message_register_fields [of E formData] by (simp add: first_message_def)
  moreover have "registrationAction E formData w = (\<lparr>status = ERROR, message = issue_message i\<rparr>, w)"
    using assms i by (simp add: registrationAction_def)
  ultimately show ?thesis by simp
qed

lemma registerUserSchema_issues:
  assumes "snd (register_fields E input) \<noteq> []"
  shows "registerUserSchema E input = Inl (snd (register_fields E input))"
proof (cases "registerUserSchema E input")
  case (Inl issues)
  with registerUserSchema_Inl [OF Inl] show ?thesis by simp
next
  case (Inr d)
  with registerUserSchema_Inr [OF Inr] assms show ?thesis by simp
qed

lemma userName_pattern_issue:
  assumes "\<not> list_all isUserNameChar (trim s)"
  shows "check_issue ''Username  can only contain letters , numbers , underscores , and hyphens''
           \<in> set (snd (userName_schema E (JsString s)))"
  using assms
  by (simp add: userName_schema_def z_string_def split_beta userName_checks_def
        run_checks_Cons run_checks_Nil userNamePattern_def)

lemma at_key_mem: "i \<in> set iss \<Longrightarrow> i\<lparr>issue_path := k # issue_path i\<rparr> \<in> set (at_key k iss)"
  by (auto simp: at_key_def)

lemma list_ex_takeWhile: "list_ex P (takeWhile Q xs) \<Longrightarrow> list_ex P xs"
  by (auto simp: list_ex_iff dest: set_takeWhileD)

lemma passwordPattern_classes:
  "passwordPattern p \<Longrightarrow> list_ex isLower p \<and> list_ex isUpper p \<and> list_ex isDigit p"
  by (auto simp: passwordPattern_def Let_def dest: list_ex_takeWhile)

lemma field_violation_None:
  "snd (z_string E cs v) = [] \<longleftrightarrow> field_violation E cs v = None"
proof -
  have "first_message (snd (z_string E cs v)) = None \<longleftrightarrow> snd (z_string E cs v) = []"
    by (cases "snd (z_string E cs v)") (simp_all add: first_message_def)
  then show ?thesis
    by (simp add: first_message_z_string)
qed

lemma first_failure_name_message:
  "first_failure E name_checks v = Some m \<Longrightarrow> m \<noteq> ''Passwords don't match''"
  by (auto simp: name_checks_def split: if_splits)

lemma first_failure_userName_message:
  "first_failure E userName_checks v = Some m \<Longrightarrow> m \<noteq> ''Passwords don't match''"
  by (auto simp: userName_checks_def split: if_splits)

lemma first_failure_email_message:
  "first_failure E email_checks v = Some m \<Longrightarrow> m \<noteq> ''Passwords don't match''"
  by (auto simp: email_checks_def split: if_splits)

lemma first_failure_password_message:
  "first_failure E password_checks v = Some m \<Longrightarrow> m \<noteq> ''Passwords don't match''"
  by (auto simp: password_checks_def split: if_splits)

lemma field_violation_message:
  assumes "field_violation E cs v = Some m"
    and "\<And>s m. first_failure E cs s = Some m \<Longrightarrow> m \<noteq> ''Passwords don't match''"
  shows "m \<noteq> ''Passwords don't match''"
  using assms by (cases v) (auto simp: field_violation_def)

lemma first_violation_message:
  assumes "first_violation E input = Some m"
  shows "m \<noteq> ''Passwords don't match''"
proof -
  from assms consider
      "field_violation E name_checks (input ''name'') = Some m"
    | "field_violation E userName_checks (input ''userName'') = Some m"
    | "field_violation E email_checks (input ''email'') = Some m"
    | "field_violation E password_checks (input ''password'') = Some m"
    | "role_violation (input ''role'') = Some m"
    by (auto simp: first_violation_def first_of_Cons split: option.splits)
  then show ?thesis
  proof cases
    case 1 then show ?thesis by (rule field_violation_message) (rule first_failure_name_message)
  next
    case 2 then show ?thesis by (rule field_violation_message) (rule first_failure_userName_message)
  next
    case 3 then show ?thesis by (rule field_violation_message) (rule first_failure_email_message)
  next
    case 4 then show ?thesis by (rule field_violation_message) (rule first_failure_password_message)
  next
    case 5 then show ?thesis by (auto simp: role_violation_def split: if_splits)
  qed
qed

lemma confirm_field:
  "z_string E [] v = (case v of JsString c \<Rightarrow> (Some c, []) | _ \<Rightarrow> (None, [invalid_type ''string'' v]))"
  by (cases v) (simp_all add: z_string_def run_checks_Nil)

lemma first_message_confirm_issues:
  "first_message (registerUserWithConfirm_issues E input) =
     (case first_violation E input of
        Some m \<Rightarrow> Some m
      | None \<Rightarrow>
          (case input ''confirmPassword'' of
             JsString c \<Rightarrow>
               (if fst (password_schema E (input ''password'')) = Some c then None
                else Some ''Passwords don't match'')
           | v \<Rightarrow> Some (''Invalid input: expected string, received '' @ typeName v)))"
proof -
  obtain n u e p r iss where f: "register_fields E input = ((n, u, e, p, r), iss)"
    by (metis prod_cases5 surj_pair)
  have fm: "first_message iss = first_violation E input"
    using first_message_register_fields [of E input] f by simp
  have p: "p = fst (password_schema E (input ''password''))"
    using f by (simp add: register_fields_def split_beta)
  show ?thesis
  proof (cases "first_violation E input")
    case (Some m)
    then show ?thesis
      using fm
      by (simp add: registerUserWithConfirm_issues_def f split_beta first_message_append Let_def)
  next
    case None
    with fm have "iss = []" by (cases iss) (simp_all add: first_message_def)
    then show ?thesis
      using None p
      by (cases "input ''confirmPassword''")
         (simp_all add: registerUserWithConfirm_issues_def f confirm_field at_key_def aborted_def
            first_message_def invalid_type_def confirm_issue_def Let_def)
  qed
qed

lemma aborted_append: "aborted (xs @ ys) \<longleftrightarrow> aborted xs \<or> aborted ys"
  by (auto simp: aborted_def list_ex_iff)

lemma aborted_at_key: "aborted (at_key k iss) \<longleftrightarrow> aborted iss"
  by (auto simp: aborted_def at_key_def list_ex_iff)

lemma run_check_continue:
  "list_all issue_continue iss \<Longrightarrow> list_all issue_continue (snd (run_check E c (v, iss)))"
  by (cases c) (simp_all add: check_issue_def)

lemma run_checks_continue_aux:
  "list_all issue_continue iss \<Longrightarrow>
   list_all issue_continue (snd (foldl (\<lambda>a c. run_check E c a) (v, iss) cs))"
proof (induction cs arbitrary: v iss)
  case Nil
  then show ?case by simp
next
  case (Cons c cs)
  obtain v1 i1 where r: "run_check E c (v, iss) = (v1, i1)" by (cases "run_check E c (v, iss)")
  with run_check_continue [OF Cons.prems, of E c v] have "list_all issue_continue i1" by simp
  from Cons.IH [OF this, of v1] r show ?case by simp
qed

lemma z_string_not_aborted: "\<not> aborted (snd (z_string E cs (JsString s)))"
  using run_checks_continue_aux [of "[]" E s cs]
  by (simp add: z_string_def split_beta run_checks_def aborted_def list_all_iff list_ex_iff)

lemma role_not_aborted: "role_violation v = None \<Longrightarrow> \<not> aborted (snd (role_schema v))"
  using first_message_role [of v]
  by (cases "snd (role_schema v)") (simp_all add: first_message_def aborted_def)

lemma password_schema_value: "fst (password_schema E (JsString s)) = Some s"
  by (simp add: password_schema_def z_string_def split_beta password_checks_def run_checks_def)

lemma register_fields_not_aborted:
  assumes "\<exists>s. input ''name'' = JsString s"
    and "\<exists>s. input ''userName'' = JsString s"
    and "\<exists>s. input ''email'' = JsString s"
    and "\<exists>s. input ''password'' = JsString s"
    and "role_violation (input ''role'') = None"
  shows "\<not> aborted (snd (register_fields E input))"
  using assms
  by (auto simp: register_fields_def split_beta aborted_append aborted_at_key name_schema_def
        userName_schema_def email_schema_def password_schema_def z_string_not_aborted
        role_not_aborted)

lemma confirm_issue_raised:
  assumes "\<exists>s. input ''name'' = JsString s"
    and "\<exists>s. input ''userName'' = JsString s"
    and "\<exists>s. input ''email'' = JsString s"
    and "input ''password'' = JsString p"
    and "input ''confirmPassword'' = JsString c"
    and "role_violation (input ''role'') = None"
    and "p \<noteq> c"
  shows "registerUserWithConfirm_issues E input = snd (register_fields E input) @ [confirm_issue]"
proof -
  obtain n u e p' r iss where f: "register_fields E input = ((n, u, e, p', r), iss)"
    by (metis prod_cases5 surj_pair)
  have p': "p' = Some p"
    using f assms(4) by (simp add: register_fields_def split_beta password_schema_value)
  have "\<not> aborted iss"
    using register_fields_not_aborted [of input E] assms f by simp
  then show ?thesis
    using assms(5,7) p'
    by (simp add: registerUserWithConfirm_issues_def f confirm_field at_key_def Let_def)
qed

lemma loginUserAction_calls:
  "\<exists>rest. calls (snd (loginUserAction E data w)) =
            calls w @ Select (EmailEq (email data)) # rest \<and>
          (\<forall>s x. Verify s x \<in> set rest \<longrightarrow> x = password data)"
  by (auto simp: loginUserAction_def db_select_def log_def Let_def login_catch_def
      split: list.splits sum.splits option.splits bool.splits)

lemma run_checks_login_email: "fst (run_checks E login_email_checks s) = toLowerCase E (trim s)"
  by (simp add: run_checks_def login_email_checks_def)

lemma run_checks_login_password: "fst (run_checks E login_password_checks s) = s"
  by (simp add: run_checks_def login_password_checks_def)

lemma loginUserSchema_Inr:
  assumes "loginUserSchema E values = Inr data"
  shows "\<exists>e p. values ''email'' = JsString e \<and> values ''password'' = JsString p \<and>
           data = \<lparr>email = toLowerCase E (trim e), password = p\<rparr>"
proof -
  obtain e i1 where e: "z_string E login_email_checks (values ''email'') = (e, i1)"
    by (cases "z_string E login_email_checks (values ''email'')")
  obtain p i2 where p: "z_string E login_password_checks (values ''password'') = (p, i2)"
    by (cases "z_string E login_password_checks (values ''password'')")
  from assms e p have d: "e = Some (email data)" "p = Some (password data)"
    by (auto simp: loginUserSchema_def split: option.splits list.splits)
  from e d(1) have "\<exists>x. values ''email'' = JsString x \<and> email data = toLowerCase E (trim x)"
    using run_checks_login_email [of E]
    by (cases "values ''email''") (auto simp: z_string_def split_beta)
  moreover from p d(2) have "values ''password'' = JsString (password data)"
    using run_checks_login_password [of E]
    by (cases "values ''password''") (auto simp: z_string_def split_beta)
  ultimately show ?thesis by auto
qed

section \<open>Running the examples\<close>

lemma example_world_simps:
  "connected (example_world rows)"
  "users (example_world rows) = rows"
  "calls (example_world rows) = []"
  by (simp_all add: example_world_def)

lemma example_registerUserSchema:
  "registerUserSchema example_env (example_form ''Jo'' ''jo_2'' ''A@B.com'' ''Abcdefg1'') =
     Inr \<lparr>email = js ''a@b.com'', password = js ''Abcdefg1'', name = js ''Jo'',
          userName = js ''jo_2'', role = Applicant\<rparr>"
  by code_simp

lemma example_registerUserSchema_other:
  "registerUserSchema example_env (example_form ''Jo'' ''jo_1'' ''c@d.org'' ''Abcdefg1'') =
     Inr \<lparr>email = js ''c@d.org'', password = js ''Abcdefg1'', name = js ''Jo'',
          userName = js ''jo_1'', role = Applicant\<rparr>"
  by code_simp

lemma example_registerUserSchema_spaces:
  "registerUserSchema example_env (example_form ''Jo'' ''jo_2'' ''  A@B.com '' ''Abcdefg1'') =
     Inr \<lparr>email = js ''a@b.com'', password = js ''Abcdefg1'', name = js ''Jo'',
          userName = js ''jo_2'', role = Applicant\<rparr>"
  by code_simp

lemma example_invalid:
  "registerUserSchema example_env (example_form ''J'' ''jo_2'' ''A@B.com'' ''abc'') =
     Inl [\<lparr>issue_path = [''name''],
            issue_message = ''Name must be atleast 2 char long'',
            issue_continue = True\<rparr>,
          \<lparr>issue_path = [''password''],
            issue_message = ''Password must be atleast character long'',
            issue_continue = True\<rparr>,
          \<lparr>issue_path = [''password''],
            issue_message =
              ''Password must contain at leaset one lowercase letter , one uppercase letter and one number'',
            issue_continue = True\<rparr>]"
  by code_simp

lemma example_fields_valid:
  "snd (name_schema example_env (JsString (js ''Jo''))) = []"
  "snd (userName_schema example_env (JsString (js ''jo_2''))) = []"
  "snd (email_schema example_env (JsString (js ''A@B.com''))) = []"
  by code_simp+

lemma example_racing_hash:
  "argon2_hash racing_env (js ''Abcdefg1'') = Inr (js ''$argon2id$Abcdefg1'')"
  by (simp add: racing_env_def example_env_def js_def)

lemma example_racing_schema:
  "registerUserSchema racing_env (example_form ''Jo'' ''jo_2'' ''A@B.com'' ''Abcdefg1'') =
     Inr \<lparr>email = js ''a@b.com'', password = js ''Abcdefg1'', name = js ''Jo'',
          userName = js ''jo_2'', role = Applicant\<rparr>"
  by code_simp

lemma example_mismatch_only:
  "first_message (registerUserWithConfirm_issues example_env
     (example_confirm ''Abcdefg2'' (example_form ''Jo'' ''jo_2'' ''A@B.com'' ''Abcdefg1''))) =
   Some ''Passwords don't match''"
  by code_simp

lemma example_handleSubmit:
  "handleSubmit example_env (example_login '' A@B.com '' '' Abcdefg1 '')
     (example_world [example_user]) =
   Inr (invalid_credentials,
        \<lparr>users = [example_user], connected = True,
         calls = [Select (EmailEq (js ''a@b.com'')),
                  Verify (js ''$argon2id$Abcdefg1'') (js '' Abcdefg1 '')]\<rparr>)"
  by code_simp

lemma example_trims:
  "trim (toLowerCase example_env (js '' A@B.com '')) = js ''a@b.com''"
  "toLowerCase example_env (trim (js '' A@B.com '')) = js ''a@b.com''"
  "trim (js '' Abcdefg1 '') = js ''Abcdefg1''"
  by code_simp+

section \<open>Login: the three failure causes\<close>

text \<open>
  Claim C1. When the lookup by the submitted email answers, each of the three failure
  causes gives the same outcome, \<open>{status: "ERROR", message: "Invalid email or password"}\<close>:
  no stored record for the email; a first record whose stored secret the guard rejects
  (NULL, empty or not beginning with \<open>$\<close>); a first record whose stored secret passes
  the guard and for which the delegated verify returns false.
\<close>

theorem login_failures_same_outcome:
  assumes "connected w"
    and "filter (matches (EmailEq (email formData))) (users w) = rows"
    and "rows = [] \<or>
         (\<exists>u rest. rows = u # rest \<and>
            (guard_rejects (user.password u) \<or>
             (\<exists>stored. user.password u = Some stored \<and>
                argon2_verify E stored (password formData) = Inr False)))"
  shows "fst (loginUserAction E formData w) = invalid_credentials"
  using assms
  by (auto simp: loginUserAction_def db_select_def log_def invalid_credentials_def Let_def)

text \<open>
  The three causes on concrete submissions: an unknown email, a stored value in plain
  text, and a wrong password.
\<close>

theorem login_failures_same_outcome_witness:
  "fst (loginUserAction example_env \<lparr>email = js ''x@y.org'', password = js ''Abcdefg1''\<rparr>
          (example_world [example_user])) = invalid_credentials \<and>
   fst (loginUserAction example_env \<lparr>email = js ''a@b.com'', password = js ''Abcdefg1''\<rparr>
          (example_world [example_user\<lparr>user.password := Some (js ''Abcdefg1'')\<rparr>])) =
     invalid_credentials \<and>
   fst (loginUserAction example_env \<lparr>email = js ''a@b.com'', password = js ''Wrong999''\<rparr>
          (example_world [example_user])) = invalid_credentials"
proof -
  have 1: "fst (loginUserAction example_env \<lparr>email = js ''x@y.org'', password = js ''Abcdefg1''\<rparr>
          (example_world [example_user])) = invalid_credentials"
    by (rule login_failures_same_outcome [where rows = "[]"])
       (simp_all add: example_world_simps example_user_def js_def)
  have 2: "fst (loginUserAction example_env \<lparr>email = js ''a@b.com'', password = js ''Abcdefg1''\<rparr>
          (example_world [example_user\<lparr>user.password := Some (js ''Abcdefg1'')\<rparr>])) =
     invalid_credentials"
    by (rule login_failures_same_outcome
          [where rows = "[example_user\<lparr>user.password := Some (js ''Abcdefg1'')\<rparr>]"])
       (simp_all add: example_world_simps example_user_def js_def guard_rejects_def
          startsWith_def)
  have 3: "fst (loginUserAction example_env \<lparr>email = js ''a@b.com'', password = js ''Wrong999''\<rparr>
          (example_world [example_user])) = invalid_credentials"
    by (rule login_failures_same_outcome [where rows = "[example_user]"])
       (simp_all add: example_world_simps example_user_def js_def guard_rejects_def
          startsWith_def example_env_def)
  from 1 2 3 show ?thesis by simp
qed

section \<open>Login: the guard and the catch block\<close>

text \<open>
  Claim C2, as stated, fails: a stored value that begins with \<open>$\<close> passes the guard, and
  when the verify primitive throws on it the exception reaches the \<open>catch\<close> block, whose
  outcome is the unknown-error one and not the invalid-credential one. Here the stored
  value is the single character \<open>$\<close>.
\<close>

theorem verify_exception_counterexample:
  "\<not> guard_rejects (Some (js ''$'')) \<and>
   argon2_verify example_env (js ''$'') (js ''Abcdefg1'') = Inl (TypeError ''malformed digest'') \<and>
   fst (loginUserAction example_env \<lparr>email = js ''a@b.com'', password = js ''Abcdefg1''\<rparr>
          (example_world [example_user\<lparr>user.password := Some (js ''$'')\<rparr>])) = unknown_error \<and>
   unknown_error \<noteq> invalid_credentials"
  by (simp add: loginUserAction_def db_select_def log_def example_world_def example_user_def
        guard_rejects_def startsWith_def js_def example_env_def login_catch_def
        unknown_error_def invalid_credentials_def)

text \<open>
  Claim C2, amended. The action always returns one of three outcomes, whatever the
  collaborators do. For a first record whose stored value is NULL, empty or does not
  begin with \<open>$\<close>, the outcome is the invalid-credential one and verify is not called:
  the flow adds the query and the error line of the guard, nothing else. For a stored
  value that passes the guard the outcome follows the verify primitive: the
  unknown-error outcome when it throws, "Login Successful" when it returns true, the
  invalid-credential outcome when it returns false.
\<close>

theorem login_guard_and_catch:
  "fst (loginUserAction E formData w) \<in>
     {invalid_credentials, unknown_error,
      \<lparr>status = SUCCESS, message = ''Login Successful''\<rparr>} \<and>
   (connected w \<and> filter (matches (EmailEq (email formData))) (users w) = u # rest \<longrightarrow>
      (guard_rejects (user.password u) \<longrightarrow>
         fst (loginUserAction E formData w) = invalid_credentials \<and>
         calls (snd (loginUserAction E formData w)) =
           calls w @ [Select (EmailEq (email formData)),
                      ConsoleError ''Invalid password hash in DB for user:''
                        (Text (email formData))]) \<and>
      (\<forall>stored. user.password u = Some stored \<and> \<not> guard_rejects (Some stored) \<longrightarrow>
         fst (loginUserAction E formData w) =
           (case argon2_verify E stored (password formData) of
              Inl error \<Rightarrow> unknown_error
            | Inr True \<Rightarrow> \<lparr>status = SUCCESS, message = ''Login Successful''\<rparr>
            | Inr False \<Rightarrow> invalid_credentials)))"
proof (intro conjI impI)
  show "fst (loginUserAction E formData w) \<in>
     {invalid_credentials, unknown_error,
      \<lparr>status = SUCCESS, message = ''Login Successful''\<rparr>}"
    by (simp add: loginUserAction_def db_select_def invalid_credentials_def Let_def
          login_catch_def
        split: list.splits sum.splits option.splits bool.splits)
next
  assume a: "connected w \<and> filter (matches (EmailEq (email formData))) (users w) = u # rest"
    and g: "guard_rejects (user.password u)"
  then show "fst (loginUserAction E formData w) = invalid_credentials"
    by (simp add: loginUserAction_def db_select_def log_def invalid_credentials_def Let_def)
  from a g show "calls (snd (loginUserAction E formData w)) =
           calls w @ [Select (EmailEq (email formData)),
                      ConsoleError ''Invalid password hash in DB for user:''
                        (Text (email formData))]"
    by (simp add: loginUserAction_def db_select_def log_def Let_def)
next
  assume a: "connected w \<and> filter (matches (EmailEq (email formData))) (users w) = u # rest"
  then show "\<forall>stored. user.password u = Some stored \<and> \<not> guard_rejects (Some stored) \<longrightarrow>
         fst (loginUserAction E formData w) =
           (case argon2_verify E stored (password formData) of
              Inl error \<Rightarrow> unknown_error
            | Inr True \<Rightarrow> \<lparr>status = SUCCESS, message = ''Login Successful''\<rparr>
            | Inr False \<Rightarrow> invalid_credentials)"
    by (auto simp: loginUserAction_def db_select_def log_def invalid_credentials_def Let_def
          login_catch_def
        split: sum.splits bool.splits)
qed

text \<open>A NULL stored value, a malformed one that begins with \<open>$\<close>, and a good one.\<close>

theorem login_guard_and_catch_witness:
  "fst (loginUserAction example_env \<lparr>email = js ''a@b.com'', password = js ''Abcdefg1''\<rparr>
          (example_world [example_user\<lparr>user.password := None\<rparr>])) = invalid_credentials \<and>
   calls (snd (loginUserAction example_env \<lparr>email = js ''a@b.com'', password = js ''Abcdefg1''\<rparr>
          (example_world [example_user\<lparr>user.password := None\<rparr>]))) =
     [Select (EmailEq (js ''a@b.com'')),
      ConsoleError ''Invalid password hash in DB for user:'' (Text (js ''a@b.com''))] \<and>
   fst (loginUserAction example_env \<lparr>email = js ''a@b.com'', password = js ''Abcdefg1''\<rparr>
          (example_world [example_user\<lparr>user.password := Some (js ''$argon2id'')\<rparr>])) =
     unknown_error \<and>
   fst (loginUserAction example_env \<lparr>email = js ''a@b.com'', password = js ''Abcdefg1''\<rparr>
          (example_world [example_user])) =
     \<lparr>status = SUCCESS, message = ''Login Successful''\<rparr>"
proof -
  have e: "user.email (example_user\<lparr>user.password := p\<rparr>) = js ''a@b.com''"
    "user.email example_user = js ''a@b.com''" for p
    by (simp_all add: example_user_def)
  show ?thesis
    using login_guard_and_catch [of example_env
        "\<lparr>email = js ''a@b.com'', password = js ''Abcdefg1''\<rparr>"
        "example_world [example_user\<lparr>user.password := None\<rparr>]"
        "example_user\<lparr>user.password := None\<rparr>" "[]"]
      login_guard_and_catch [of example_env
        "\<lparr>email = js ''a@b.com'', password = js ''Abcdefg1''\<rparr>"
        "example_world [example_user\<lparr>user.password := Some (js ''$argon2id'')\<rparr>]"
        "example_user\<lparr>user.password := Some (js ''$argon2id'')\<rparr>" "[]"]
      login_guard_and_catch [of example_env
        "\<lparr>email = js ''a@b.com'', password = js ''Abcdefg1''\<rparr>"
        "example_world [example_user]" example_user "[]"]
    by (simp add: e example_world_simps guard_rejects_def startsWith_def js_def)
       (simp add: example_user_def example_env_def js_def)
qed

section \<open>Registration: duplicates\<close>

text \<open>
  Claim C4. For a submission that validates to \<open>d\<close>, when the duplicate query answers
  with at least one record the outcome is an ERROR decided by the first record alone:
  "Email Already Exists" if its email equals the sanitized email, "Username Already
  Exists" otherwise. When the query returns no record, neither duplicate message is
  returned and the flow goes on to hash the password.
\<close>

theorem duplicate_tie_break:
  assumes "registerUserSchema E formData = Inr d"
    and "connected w"
    and "filter (matches (EmailEqOrUserNameEq (email d) (userName d))) (users w) = rows"
  shows "case rows of
           u # _ \<Rightarrow>
             fst (registrationAction E formData w) =
               \<lparr>status = ERROR,
                message = (if user.email u = email d then ''Email Already Exists''
                           else ''Username Already Exists'')\<rparr>
         | [] \<Rightarrow>
             message (fst (registrationAction E formData w)) \<noteq> ''Email Already Exists'' \<and>
             message (fst (registrationAction E formData w)) \<noteq> ''Username Already Exists'' \<and>
             Hash (password d) \<in> set (calls (snd (registrationAction E formData w)))"
  using assms
  by (auto simp: registrationAction_def db_select_def log_def Let_def registration_catch_def
        unknown_error_def db_insert_def
      split: list.splits sum.splits)

text \<open>
  An existing email, an existing username under another email, and an empty table.
\<close>

theorem duplicate_tie_break_witness:
  "fst (registrationAction example_env (example_form ''Jo'' ''jo_2'' ''A@B.com'' ''Abcdefg1'')
          (example_world [example_user])) =
     \<lparr>status = ERROR, message = ''Email Already Exists''\<rparr> \<and>
   fst (registrationAction example_env (example_form ''Jo'' ''jo_1'' ''c@d.org'' ''Abcdefg1'')
          (example_world [example_user])) =
     \<lparr>status = ERROR, message = ''Username Already Exists''\<rparr> \<and>
   Hash (js ''Abcdefg1'') \<in> set (calls (snd
     (registrationAction example_env (example_form ''Jo'' ''jo_2'' ''A@B.com'' ''Abcdefg1'')
        (example_world []))))"
proof -
  have 1: "fst (registrationAction example_env
                  (example_form ''Jo'' ''jo_2'' ''A@B.com'' ''Abcdefg1'')
                  (example_world [example_user])) =
     \<lparr>status = ERROR, message = ''Email Already Exists''\<rparr>"
    using duplicate_tie_break [OF example_registerUserSchema,
        of "example_world [example_user]" "[example_user]"]
    by (simp add: example_world_simps example_user_def js_def)
  have 2: "fst (registrationAction example_env
                  (example_form ''Jo'' ''jo_1'' ''c@d.org'' ''Abcdefg1'')
                  (example_world [example_user])) =
     \<lparr>status = ERROR, message = ''Username Already Exists''\<rparr>"
    using duplicate_tie_break [OF example_registerUserSchema_other,
        of "example_world [example_user]" "[example_user]"]
    by (simp add: example_world_simps example_user_def js_def)
  have 3: "Hash (js ''Abcdefg1'') \<in> set (calls (snd
     (registrationAction example_env (example_form ''Jo'' ''jo_2'' ''A@B.com'' ''Abcdefg1'')
        (example_world []))))"
    using duplicate_tie_break [OF example_registerUserSchema, of "example_world []" "[]"]
    by (simp add: example_world_simps)
  from 1 2 3 show ?thesis by simp
qed

text \<open>
  Claim C10. When validation fails, or when the outcome is one of the two duplicate
  messages, the outcome is an ERROR, the table is as it was, and the only call the flow
  may have added is the duplicate query: nothing was hashed and no insert was requested.
\<close>

theorem error_paths_leave_state:
  assumes "registerUserSchema E formData = Inl issues \<or>
           message (fst (registrationAction E formData w)) = ''Email Already Exists'' \<or>
           message (fst (registrationAction E formData w)) = ''Username Already Exists''"
  shows "status (fst (registrationAction E formData w)) = ERROR \<and>
         users (snd (registrationAction E formData w)) = users w \<and>
         (calls (snd (registrationAction E formData w)) = calls w \<or>
          (\<exists>q. calls (snd (registrationAction E formData w)) = calls w @ [Select q]))"
proof (cases "registerUserSchema E formData")
  case (Inl iss)
  from registration_invalid [OF Inl, of w] show ?thesis by auto
next
  case (Inr d)
  with assms have
    "message (fst (registrationAction E formData w)) = ''Email Already Exists'' \<or>
     message (fst (registrationAction E formData w)) = ''Username Already Exists''"
    by simp
  then show ?thesis
    using Inr
    by (auto simp: registrationAction_def db_select_def log_def Let_def registration_catch_def
          unknown_error_def
        split: list.splits sum.splits if_splits)
qed

text \<open>A submission that fails validation, and one whose email is already stored.\<close>

theorem error_paths_leave_state_witness:
  "(let r = registrationAction example_env (example_form ''J'' ''jo_2'' ''A@B.com'' ''abc'')
              (example_world [example_user])
    in status (fst r) = ERROR \<and> users (snd r) = [example_user] \<and>
       (calls (snd r) = [] \<or> (\<exists>q. calls (snd r) = [Select q]))) \<and>
   (let r = registrationAction example_env
              (example_form ''Jo'' ''jo_2'' ''A@B.com'' ''Abcdefg1'')
              (example_world [example_user])
    in status (fst r) = ERROR \<and> users (snd r) = [example_user] \<and>
       (calls (snd r) = [] \<or> (\<exists>q. calls (snd r) = [Select q])))"
proof -
  have 1: "message (fst (registrationAction example_env
              (example_form ''Jo'' ''jo_2'' ''A@B.com'' ''Abcdefg1'')
              (example_world [example_user]))) = ''Email Already Exists''"
    by (simp add: registrationAction_def example_registerUserSchema db_select_def log_def
          example_world_simps example_user_def js_def)
  show ?thesis
    using error_paths_leave_state [of example_env
        "example_form ''J'' ''jo_2'' ''A@B.com'' ''abc''" _
        "example_world [example_user]", OF disjI1, OF example_invalid]
      error_paths_leave_state [of example_env
        "example_form ''Jo'' ''jo_2'' ''A@B.com'' ''Abcdefg1''" "[]"
        "example_world [example_user]", OF disjI2, OF disjI1, OF 1]
    by (simp add: example_world_simps Let_def)
qed

section \<open>Registration: the sanitized identity\<close>

lemma run_checks_email_value: "fst (run_checks E email_checks s) = toLowerCase E (trim s)"
  by (simp add: run_checks_def email_checks_def)

text \<open>
  Claim C8. When a registration submission validates, the email of the sanitized
  identity is the submitted email trimmed and then lower-cased, and the role is
  \<open>applicant\<close> whenever the submission has no \<open>role\<close>.
\<close>

theorem registration_email_and_role:
  assumes "registerUserSchema E formData = Inr d"
  shows "(\<exists>e. formData ''email'' = JsString e \<and> email d = toLowerCase E (trim e)) \<and>
         (formData ''role'' = Undefined \<longrightarrow> role d = Applicant)"
proof -
  have f: "fst (register_fields E formData) =
           (Some (name d), Some (userName d), Some (email d), Some (password d), Some (role d))"
    using registerUserSchema_Inr [OF assms] by simp
  then have e: "fst (email_schema E (formData ''email'')) = Some (email d)"
    and r: "fst (role_schema (formData ''role'')) = Some (role d)"
    by (simp_all add: register_fields_def split_beta)
  from e have "\<exists>e. formData ''email'' = JsString e \<and> email d = toLowerCase E (trim e)"
    by (cases "formData ''email''")
       (auto simp: email_schema_def z_string_def split_beta run_checks_email_value)
  moreover from r have "formData ''role'' = Undefined \<longrightarrow> role d = Applicant"
    by (auto simp: role_schema_def)
  ultimately show ?thesis by simp
qed

text \<open>A submission with spaces around a mixed-case email and no role.\<close>

theorem registration_email_and_role_witness:
  "(\<exists>e. example_form ''Jo'' ''jo_2'' ''  A@B.com '' ''Abcdefg1'' ''email'' = JsString e \<and>
        js ''a@b.com'' = toLowerCase example_env (trim e)) \<and>
   example_form ''Jo'' ''jo_2'' ''  A@B.com '' ''Abcdefg1'' ''role'' = Undefined \<and>
   role \<lparr>email = js ''a@b.com'', password = js ''Abcdefg1'', name = js ''Jo'',
          userName = js ''jo_2'', role = Applicant\<rparr> = Applicant"
  using registration_email_and_role [OF example_registerUserSchema_spaces]
  by (simp add: example_form_def)

section \<open>Registration: a uniqueness violation at the insert\<close>

text \<open>
  Claim C3, as stated, fails: when another request stores the same email between the
  duplicate query and the insert, the insert throws the uniqueness violation, the
  \<open>catch\<close> block logs it and the outcome is the unknown-error one, not "Email Already
  Exists".
\<close>

theorem insert_race_counterexample:
  "registrationAction racing_env (example_form ''Jo'' ''jo_2'' ''A@B.com'' ''Abcdefg1'')
     (example_world []) =
   (unknown_error,
    \<lparr>users = [example_user], connected = True,
     calls = [Select (EmailEqOrUserNameEq (js ''a@b.com'') (js ''jo_2'')),
              Hash (js ''Abcdefg1''),
              Insert \<lparr>user.name = js ''Jo'', user.email = js ''a@b.com'',
                      user.password = Some (js ''$argon2id$Abcdefg1''),
                      user.userName = js ''jo_2'', user.role = Applicant\<rparr>,
              ConsoleError ''Registration Error:'' (Exception (UniqueConstraint ''email''))]\<rparr>) \<and>
   message unknown_error \<noteq> ''Email Already Exists'' \<and>
   message unknown_error \<noteq> ''Username Already Exists''"
  by code_simp

text \<open>
  Claim C3, amended. For a submission that validates, finds no duplicate and is hashed,
  if a row with the same email or the same username has been stored meanwhile, then
  the insert fails with the uniqueness violation, which is only written to the console:
  the outcome is the unknown-error one and the submitted row is not stored.
\<close>

theorem insert_violation_is_unknown_error:
  assumes "registerUserSchema E formData = Inr d"
    and "connected w"
    and "filter (matches (EmailEqOrUserNameEq (email d) (userName d))) (users w) = []"
    and "argon2_hash E (password d) = Inr h"
    and "list_ex (matches (EmailEqOrUserNameEq (email d) (userName d))) (interleaved E (users w))"
  shows "fst (registrationAction E formData w) = unknown_error \<and>
         users (snd (registrationAction E formData w)) = interleaved E (users w) \<and>
         (\<exists>c. last (calls (snd (registrationAction E formData w))) =
                ConsoleError ''Registration Error:'' (Exception (UniqueConstraint c)))"
  using assms
  by (auto simp: registrationAction_def db_select_def log_def Let_def registration_catch_def
        db_insert_def list_ex_iff)

text \<open>The race on the example: the table is empty at the query and holds the email at the insert.\<close>

theorem insert_violation_is_unknown_error_witness:
  "fst (registrationAction racing_env (example_form ''Jo'' ''jo_2'' ''A@B.com'' ''Abcdefg1'')
          (example_world [])) = unknown_error \<and>
   users (snd (registrationAction racing_env
                 (example_form ''Jo'' ''jo_2'' ''A@B.com'' ''Abcdefg1'') (example_world []))) =
     [example_user]"
  using insert_violation_is_unknown_error [OF example_racing_schema, of "example_world []"
      "js ''$argon2id$Abcdefg1''"]
  by (simp add: example_world_simps example_racing_hash)
     (simp add: racing_env_def example_env_def example_user_def js_def)

section \<open>Registration: the password constraints\<close>

text \<open>
  Claim C5, as stated, fails: the length bound and the pattern are two constraints with
  two messages. \<open>Ab1\<close> has the three character classes and is too short; \<open>abcdefgh\<close> is
  long enough and lacks two classes; the two outcomes carry different messages.
\<close>

theorem password_messages_counterexample:
  "fst (registrationAction example_env (example_form ''Jo'' ''jo_2'' ''A@B.com'' ''Ab1'')
          (example_world [])) =
     \<lparr>status = ERROR, message = ''Password must be atleast character long''\<rparr> \<and>
   fst (registrationAction example_env (example_form ''Jo'' ''jo_2'' ''A@B.com'' ''abcdefgh'')
          (example_world [])) =
     \<lparr>status = ERROR, message =
        ''Password must contain at leaset one lowercase letter , one uppercase letter and one number''\<rparr> \<and>
   ''Password must be atleast character long'' \<noteq>
     ''Password must contain at leaset one lowercase letter , one uppercase letter and one number''"
  by code_simp

text \<open>
  Claim C5, amended. For a submission whose name, username and email raise no issue:
  a password whose length, as the validation library measures it, is below 8 is
  reported with the message of the length bound; a password whose length is at least 8
  and that lacks a lowercase letter, an uppercase letter or a digit is reported with
  the one message of the pattern, whichever class is missing.
\<close>

theorem password_violation_message:
  assumes "snd (name_schema E (formData ''name'')) = []"
    and "snd (userName_schema E (formData ''userName'')) = []"
    and "snd (email_schema E (formData ''email'')) = []"
    and "formData ''password'' = JsString p"
  shows "(stringLength E p < 8 \<longrightarrow>
            fst (registrationAction E formData w) =
              \<lparr>status = ERROR, message = ''Password must be atleast character long''\<rparr>) \<and>
         (8 \<le> stringLength E p \<and> \<not> (list_ex isLower p \<and> list_ex isUpper p \<and> list_ex isDigit p) \<longrightarrow>
            fst (registrationAction E formData w) =
              \<lparr>status = ERROR, message = ''Password must contain at leaset one lowercase letter , one uppercase letter and one number''\<rparr>)"
proof -
  have v: "field_violation E name_checks (formData ''name'') = None"
    "field_violation E userName_checks (formData ''userName'') = None"
    "field_violation E email_checks (formData ''email'') = None"
    using assms(1-3)
    by (simp_all add: name_schema_def userName_schema_def email_schema_def field_violation_None)
  have pw: "field_violation E password_checks (formData ''password'') =
      (if stringLength E p < 8 then Some ''Password must be atleast character long''
       else if passwordPattern p then None
       else Some ''Password must contain at leaset one lowercase letter , one uppercase letter and one number'')"
    by (simp add: assms(4) field_violation_def password_checks_def
          )
  have fv: "first_violation E formData =
      (if stringLength E p < 8 then Some ''Password must be atleast character long''
       else if passwordPattern p then role_violation (formData ''role'')
       else Some ''Password must contain at leaset one lowercase letter , one uppercase letter and one number'')"
    by (simp add: first_violation_def v pw first_of_Cons split: option.splits)
  have r: "first_violation E formData = Some m \<Longrightarrow>
           fst (registrationAction E formData w) = \<lparr>status = ERROR, message = m\<rparr>" for m
  proof -
    assume m: "first_violation E formData = Some m"
    show ?thesis
    proof (cases "registerUserSchema E formData")
      case (Inl issues)
      from registration_invalid [OF Inl, of w] m show ?thesis by auto
    next
      case (Inr d)
      from registerUserSchema_Inr [OF Inr] first_message_register_fields [of E formData] m
      show ?thesis by (simp add: first_message_def)
    qed
  qed
  have a: "stringLength E p < 8 \<Longrightarrow>
      fst (registrationAction E formData w) =
        \<lparr>status = ERROR, message = ''Password must be atleast character long''\<rparr>"
    using fv r by simp
  have b: "8 \<le> stringLength E p \<Longrightarrow> \<not> passwordPattern p \<Longrightarrow>
      fst (registrationAction E formData w) =
        \<lparr>status = ERROR, message = ''Password must contain at leaset one lowercase letter , one uppercase letter and one number''\<rparr>"
    using fv r by simp
  show ?thesis
    using a b passwordPattern_classes [of p] by blast
qed

text \<open>A short password, and a long one without a lowercase letter.\<close>

theorem password_violation_message_witness:
  "fst (registrationAction example_env (example_form ''Jo'' ''jo_2'' ''A@B.com'' ''Ab1'')
          (example_world [])) =
     \<lparr>status = ERROR, message = ''Password must be atleast character long''\<rparr> \<and>
   fst (registrationAction example_env (example_form ''Jo'' ''jo_2'' ''A@B.com'' ''ABCDEFG1'')
          (example_world [])) =
     \<lparr>status = ERROR, message =
        ''Password must contain at leaset one lowercase letter , one uppercase letter and one number''\<rparr>"
proof -
  have f: "example_form n u e p ''name'' = JsString (js n)"
    "example_form n u e p ''userName'' = JsString (js u)"
    "example_form n u e p ''email'' = JsString (js e)"
    "example_form n u e p ''password'' = JsString (js p)" for n u e p
    by (simp_all add: example_form_def)
  have 1: "stringLength example_env (js ''Ab1'') < 8"
    by (simp add: example_env_def js_def)
  have 2: "8 \<le> stringLength example_env (js ''ABCDEFG1'') \<and>
           \<not> (list_ex isLower (js ''ABCDEFG1'') \<and> list_ex isUpper (js ''ABCDEFG1'') \<and>
              list_ex isDigit (js ''ABCDEFG1''))"
    by (simp add: example_env_def js_def isLower_def)
  show ?thesis
    using password_violation_message [of example_env
        "example_form ''Jo'' ''jo_2'' ''A@B.com'' ''Ab1''" "js ''Ab1''" "example_world []"]
      password_violation_message [of example_env
        "example_form ''Jo'' ''jo_2'' ''A@B.com'' ''ABCDEFG1''" "js ''ABCDEFG1''" "example_world []"]
      1 2
    by (simp only: f example_fields_valid simp_thms)
qed

section \<open>Registration: the username pattern\<close>

text \<open>
  Claim C9, as stated, fails: the username is trimmed before the pattern is tested, so
  a leading space, which is outside the class, does not make validation fail.
\<close>

theorem userName_trim_counterexample:
  "\<not> list_all isUserNameChar (js '' jo_2'') \<and>
   registerUserSchema example_env (example_form ''Jo'' '' jo_2'' ''A@B.com'' ''Abcdefg1'') =
     Inr \<lparr>email = js ''a@b.com'', password = js ''Abcdefg1'', name = js ''Jo'',
          userName = js ''jo_2'', role = Applicant\<rparr> \<and>
   fst (registrationAction example_env (example_form ''Jo'' '' jo_2'' ''A@B.com'' ''Abcdefg1'')
          (example_world [])) =
     \<lparr>status = SUCCESS, message = ''Registration Completed Successfully''\<rparr>"
  by code_simp

text \<open>
  Claim C9, amended. When the submitted username, after trimming, contains a character
  outside \<open>[A-Za-z0-9_-]\<close>, validation fails with the pattern's issue attached to
  \<open>userName\<close>, and the action returns an ERROR and leaves the state as it was.
\<close>

theorem userName_outside_class_rejected:
  assumes "formData ''userName'' = JsString s"
    and "\<not> list_all isUserNameChar (trim s)"
  shows "\<exists>issues. registerUserSchema E formData = Inl issues \<and>
           \<lparr>issue_path = [''userName''],
            issue_message =
              ''Username  can only contain letters , numbers , underscores , and hyphens'',
            issue_continue = True\<rparr> \<in> set issues \<and>
           status (fst (registrationAction E formData w)) = ERROR \<and>
           snd (registrationAction E formData w) = w"
proof -
  let ?i = "\<lparr>issue_path = [''userName''],
            issue_message =
              ''Username  can only contain letters , numbers , underscores , and hyphens'',
            issue_continue = True\<rparr>"
  have "?i \<in> set (at_key ''userName'' (snd (userName_schema E (formData ''userName''))))"
    using at_key_mem [OF userName_pattern_issue [OF assms(2), of E], of "''userName''"] assms(1)
    by (simp add: check_issue_def)
  then have m: "?i \<in> set (snd (register_fields E formData))"
    by (simp add: register_fields_def split_beta)
  then have "snd (register_fields E formData) \<noteq> []" by auto
  then have r: "registerUserSchema E formData = Inl (snd (register_fields E formData))"
    by (rule registerUserSchema_issues)
  from registration_invalid [OF r, of w] m r show ?thesis by auto
qed

text \<open>A username with a space in the middle.\<close>

theorem userName_outside_class_rejected_witness:
  "\<exists>issues. registerUserSchema example_env
               (example_form ''Jo'' ''jo 2'' ''A@B.com'' ''Abcdefg1'') = Inl issues \<and>
     \<lparr>issue_path = [''userName''],
      issue_message =
        ''Username  can only contain letters , numbers , underscores , and hyphens'',
      issue_continue = True\<rparr> \<in> set issues \<and>
     status (fst (registrationAction example_env
                   (example_form ''Jo'' ''jo 2'' ''A@B.com'' ''Abcdefg1'')
                   (example_world []))) = ERROR \<and>
     snd (registrationAction example_env
            (example_form ''Jo'' ''jo 2'' ''A@B.com'' ''Abcdefg1'') (example_world [])) =
       example_world []"
proof -
  have 1: "example_form ''Jo'' ''jo 2'' ''A@B.com'' ''Abcdefg1'' ''userName'' = JsString (js ''jo 2'')"
    by (simp add: example_form_def)
  have 2: "\<not> list_all isUserNameChar (trim (js ''jo 2''))"
    by code_simp
  show ?thesis
    using userName_outside_class_rejected
      [of "example_form ''Jo'' ''jo 2'' ''A@B.com'' ''Abcdefg1''" "js ''jo 2''"
          example_env "example_world []", OF 1 2]
    by simp
qed

section \<open>Login: what is looked up and what is verified\<close>

text \<open>
  Claim C6, as stated, fails: \<open>loginUserSchema\<close> trims and lower-cases the email and
  leaves the password as submitted, so the form that validates with it has the secret
  verified with its surrounding spaces; and \<open>loginUserAction\<close> itself looks up the email
  it is given, unchanged.
\<close>

theorem login_secret_counterexample:
  "handleSubmit example_env (example_login '' A@B.com '' '' Abcdefg1 '')
     (example_world [example_user]) =
   Inr (invalid_credentials,
        \<lparr>users = [example_user], connected = True,
         calls = [Select (EmailEq (js ''a@b.com'')),
                  Verify (js ''$argon2id$Abcdefg1'') (js '' Abcdefg1 '')]\<rparr>) \<and>
   trim (js '' Abcdefg1 '') \<noteq> js '' Abcdefg1 '' \<and>
   calls (snd (loginUserAction example_env
                 \<lparr>email = js '' A@B.com '', password = js '' Abcdefg1 ''\<rparr>
                 (example_world [example_user]))) =
     [Select (EmailEq (js '' A@B.com ''))]"
  by code_simp

text \<open>
  Claim C6, amended. \<open>loginUserAction\<close> queries by the email it receives and verifies the
  password it receives, both unchanged. The form validated with \<open>loginUserSchema\<close>
  submits the email trimmed and then lower-cased and the password as it was typed. The
  hand-written form of \<open>app/login/Login.tsx\<close> submits the email lower-cased and then
  trimmed and the password trimmed.
\<close>

theorem login_lookup_and_verify_inputs:
  "(\<exists>rest. calls (snd (loginUserAction E data w)) =
             calls w @ Select (EmailEq (email data)) # rest \<and>
           (\<forall>s x. Verify s x \<in> set rest \<longrightarrow> x = password data)) \<and>
   (handleSubmit E values w = Inr r \<longrightarrow>
      (\<exists>e p rest. values ''email'' = JsString e \<and> values ''password'' = JsString p \<and>
         calls (snd r) = calls w @ Select (EmailEq (toLowerCase E (trim e))) # rest \<and>
         (\<forall>s x. Verify s x \<in> set rest \<longrightarrow> x = p))) \<and>
   (\<exists>rest. calls (snd (handleFormSubmit E formData w)) =
             calls w @ Select (EmailEq (trim (toLowerCase E (email formData)))) # rest \<and>
           (\<forall>s x. Verify s x \<in> set rest \<longrightarrow> x = trim (password formData)))"
proof (intro conjI impI)
  show "\<exists>rest. calls (snd (loginUserAction E data w)) =
             calls w @ Select (EmailEq (email data)) # rest \<and>
           (\<forall>s x. Verify s x \<in> set rest \<longrightarrow> x = password data)"
    by (rule loginUserAction_calls)
next
  assume a: "handleSubmit E values w = Inr r"
  then obtain d where d: "loginUserSchema E values = Inr d" and r: "r = loginUserAction E d w"
    by (auto simp: handleSubmit_def onSubmit_def split: sum.splits)
  from loginUserSchema_Inr [OF d] obtain e p where
    v: "values ''email'' = JsString e" "values ''password'' = JsString p"
       "d = \<lparr>email = toLowerCase E (trim e), password = p\<rparr>"
    by auto
  from loginUserAction_calls [of E d w] v r
  show "\<exists>e p rest. values ''email'' = JsString e \<and> values ''password'' = JsString p \<and>
         calls (snd r) = calls w @ Select (EmailEq (toLowerCase E (trim e))) # rest \<and>
         (\<forall>s x. Verify s x \<in> set rest \<longrightarrow> x = p)"
    by auto
next
  from loginUserAction_calls
    [of E "\<lparr>email = trim (toLowerCase E (email formData)), password = trim (password formData)\<rparr>" w]
  show "\<exists>rest. calls (snd (handleFormSubmit E formData w)) =
             calls w @ Select (EmailEq (trim (toLowerCase E (email formData)))) # rest \<and>
           (\<forall>s x. Verify s x \<in> set rest \<longrightarrow> x = trim (password formData))"
    by (simp add: handleFormSubmit_def Let_def)
qed

text \<open>Both forms on an email and a password with a space on each side.\<close>

theorem login_lookup_and_verify_inputs_witness:
  "(\<exists>r rest. handleSubmit example_env (example_login '' A@B.com '' '' Abcdefg1 '')
                (example_world [example_user]) = Inr r \<and>
           calls (snd r) = Select (EmailEq (js ''a@b.com'')) # rest \<and>
           (\<forall>s x. Verify s x \<in> set rest \<longrightarrow> x = js '' Abcdefg1 '')) \<and>
   (\<exists>rest. calls (snd (handleFormSubmit example_env
                         \<lparr>email = js '' A@B.com '', password = js '' Abcdefg1 ''\<rparr>
                         (example_world [example_user]))) =
             Select (EmailEq (js ''a@b.com'')) # rest \<and>
           (\<forall>s x. Verify s x \<in> set rest \<longrightarrow> x = js ''Abcdefg1''))"
  using login_lookup_and_verify_inputs [of example_env _ "example_world [example_user]"
      "example_login '' A@B.com '' '' Abcdefg1 ''" _
      "\<lparr>email = js '' A@B.com '', password = js '' Abcdefg1 ''\<rparr>"]
    example_handleSubmit
  by (simp add: example_world_simps example_trims example_login_def)

section \<open>Registration: the first violation and the cross-field rule\<close>

text \<open>
  Claim C7, as stated, fails in its last part: the password/confirmation rule of
  \<open>registerUserWithConfirmSchema\<close> is evaluated although a per-field rule has failed.
  With a name that is too short and a confirmation that differs, the issues are those
  of the name and of the confirmation.
\<close>

theorem cross_field_counterexample:
  "snd (register_fields example_env
          (example_confirm ''Abcdefg2'' (example_form ''J'' ''jo_2'' ''A@B.com'' ''Abcdefg1''))) =
     [\<lparr>issue_path = [''name''], issue_message = ''Name must be atleast 2 char long'',
       issue_continue = True\<rparr>] \<and>
   registerUserWithConfirmSchema example_env
     (example_confirm ''Abcdefg2'' (example_form ''J'' ''jo_2'' ''A@B.com'' ''Abcdefg1'')) =
     Inl [\<lparr>issue_path = [''name''], issue_message = ''Name must be atleast 2 char long'',
            issue_continue = True\<rparr>,
          \<lparr>issue_path = [''confirmPassword''], issue_message = ''Passwords don't match'',
            issue_continue = True\<rparr>]"
  by code_simp

text \<open>
  Claim C7, amended. For every invalid registration submission the outcome of the
  action is an ERROR with exactly one message, the first violation in the order of the
  fields and, within a field, of its constraints; the state is left as it was. In the
  variant with a confirmation field, the cross-field issue comes after the issues of
  the fields, so that its message is the first one only when no per-field rule is
  violated; and whenever every field has the type its schema expects and the password
  differs from the confirmation, the rule is evaluated, also when per-field constraints
  fail, and its issue is attached to \<open>confirmPassword\<close>.
\<close>

theorem first_violation_and_cross_field:
  "(registerUserSchema E formData = Inl issues \<longrightarrow>
      (\<exists>m. first_violation E formData = Some m \<and>
           registrationAction E formData w = (\<lparr>status = ERROR, message = m\<rparr>, w))) \<and>
   (first_message (registerUserWithConfirm_issues E formData) = Some ''Passwords don't match'' \<longrightarrow>
      first_violation E formData = None) \<and>
   ((\<exists>s. formData ''name'' = JsString s) \<and> (\<exists>s. formData ''userName'' = JsString s) \<and>
    (\<exists>s. formData ''email'' = JsString s) \<and> (\<exists>s. formData ''password'' = JsString s) \<and>
    (\<exists>s. formData ''confirmPassword'' = JsString s) \<and>
    role_violation (formData ''role'') = None \<and>
    formData ''password'' \<noteq> formData ''confirmPassword'' \<longrightarrow>
      registerUserWithConfirm_issues E formData =
        snd (register_fields E formData) @
        [\<lparr>issue_path = [''confirmPassword''], issue_message = ''Passwords don't match'',
          issue_continue = True\<rparr>])"
proof (intro conjI impI)
  assume "registerUserSchema E formData = Inl issues"
  then show "\<exists>m. first_violation E formData = Some m \<and>
           registrationAction E formData w = (\<lparr>status = ERROR, message = m\<rparr>, w)"
    by (rule registration_invalid)
next
  assume a: "first_message (registerUserWithConfirm_issues E formData) =
             Some ''Passwords don't match''"
  show "first_violation E formData = None"
  proof (cases "first_violation E formData")
    case None
    then show ?thesis .
  next
    case (Some m)
    with a first_message_confirm_issues [of E formData] first_violation_message [OF Some]
    show ?thesis by simp
  qed
next
  assume "(\<exists>s. formData ''name'' = JsString s) \<and> (\<exists>s. formData ''userName'' = JsString s) \<and>
    (\<exists>s. formData ''email'' = JsString s) \<and> (\<exists>s. formData ''password'' = JsString s) \<and>
    (\<exists>s. formData ''confirmPassword'' = JsString s) \<and>
    role_violation (formData ''role'') = None \<and>
    formData ''password'' \<noteq> formData ''confirmPassword''"
  then obtain p c where "\<exists>s. formData ''name'' = JsString s"
    "\<exists>s. formData ''userName'' = JsString s" "\<exists>s. formData ''email'' = JsString s"
    "formData ''password'' = JsString p" "formData ''confirmPassword'' = JsString c"
    "role_violation (formData ''role'') = None" "p \<noteq> c"
    by auto
  from confirm_issue_raised [OF this, of E]
  show "registerUserWithConfirm_issues E formData =
        snd (register_fields E formData) @
        [\<lparr>issue_path = [''confirmPassword''], issue_message = ''Passwords don't match'',
          issue_continue = True\<rparr>]"
    by (simp add: confirm_issue_def)
qed

text \<open>
  An invalid submission; a valid one whose confirmation differs; an invalid one whose
  confirmation differs.
\<close>

theorem first_violation_and_cross_field_witness:
  "(\<exists>m. first_violation example_env (example_form ''J'' ''jo_2'' ''A@B.com'' ''abc'') = Some m \<and>
        registrationAction example_env (example_form ''J'' ''jo_2'' ''A@B.com'' ''abc'')
          (example_world []) = (\<lparr>status = ERROR, message = m\<rparr>, example_world [])) \<and>
   first_violation example_env
     (example_confirm ''Abcdefg2'' (example_form ''Jo'' ''jo_2'' ''A@B.com'' ''Abcdefg1'')) = None \<and>
   registerUserWithConfirm_issues example_env
     (example_confirm ''Abcdefg2'' (example_form ''J'' ''jo_2'' ''A@B.com'' ''Abcdefg1'')) =
     snd (register_fields example_env
            (example_confirm ''Abcdefg2'' (example_form ''J'' ''jo_2'' ''A@B.com'' ''Abcdefg1''))) @
     [\<lparr>issue_path = [''confirmPassword''], issue_message = ''Passwords don't match'',
       issue_continue = True\<rparr>]"
proof -
  have r: "role_violation Undefined = None"
    by (simp add: role_violation_def)
  have ne: "JsString (js ''Abcdefg1'') \<noteq> JsString (js ''Abcdefg2'')"
    by (simp add: js_def)
  show ?thesis
    using first_violation_and_cross_field [of example_env
        "example_form ''J'' ''jo_2'' ''A@B.com'' ''abc''" _ "example_world []"]
      first_violation_and_cross_field [of example_env
        "example_confirm ''Abcdefg2'' (example_form ''Jo'' ''jo_2'' ''A@B.com'' ''Abcdefg1'')"]
      first_violation_and_cross_field [of example_env
        "example_confirm ''Abcdefg2'' (example_form ''J'' ''jo_2'' ''A@B.com'' ''Abcdefg1'')"]
      example_invalid example_mismatch_only r ne
    by (simp add: example_confirm_def example_form_def)
qed

end
